theory Spec2Isabelle
  imports Main "HOL-Library.Word" "HOL-Library.Sublist"
begin

section \<open>Texts, buffers and JavaScript values\<close>

text \<open>
  A text is a \<^typ>\<open>string\<close>: the list of its bytes in UTF-8, one \<^typ>\<open>char\<close> per byte, so
  an ASCII text is the list of its characters. A \<open>Buffer\<close> that comes from outside
  (the standard output of \<open>execSync\<close>) is given the same way, by its bytes. The
  \<open>Uint8Array\<close> that \<open>decodeHex\<close> fills is a list of 8-bit words.
\<close>

type_synonym uint8 = "8 word"

definition dquote :: char where
  "dquote = CHR 0x22"

definition backslash :: char where
  "backslash = CHR 0x5C"

subsection \<open>\<open>Buffer.prototype.toString()\<close>: UTF-8 decoding with replacement\<close>

text \<open>
  \<open>buffer.toString()\<close> decodes the bytes as UTF-8. A well-formed sequence is kept; every
  maximal ill-formed part is replaced by U+FFFD, whose UTF-8 form is \<open>EF BF BD\<close>. The
  scan keeps the number of continuation bytes still \<open>needed\<close>, the bounds \<open>lo\<close> and
  \<open>hi\<close> of the next continuation byte and the bytes \<open>seen\<close> of the sequence so far.
  A byte that breaks a sequence is looked at again as the start of the next one.
\<close>

definition replacement :: string where
  "replacement = [CHR 0xEF, CHR 0xBF, CHR 0xBD]"

definition byte_char :: "uint8 \<Rightarrow> char" where
  "byte_char b = char_of (unat b)"

fun utf8_scan :: "nat \<Rightarrow> uint8 \<Rightarrow> uint8 \<Rightarrow> string \<Rightarrow> uint8 list \<Rightarrow> string" where
  "utf8_scan needed lo hi seen [] = (if needed = 0 then [] else replacement)"
| "utf8_scan needed lo hi seen (b # bs) =
     (if needed = 0 then
        (if b \<le> 0x7F then byte_char b # utf8_scan 0 0x80 0xBF [] bs
         else if 0xC2 \<le> b \<and> b \<le> 0xDF then utf8_scan 1 0x80 0xBF [byte_char b] bs
         else if 0xE0 \<le> b \<and> b \<le> 0xEF then
           utf8_scan 2 (if b = 0xE0 then 0xA0 else 0x80) (if b = 0xED then 0x9F else 0xBF)
             [byte_char b] bs
         else if 0xF0 \<le> b \<and> b \<le> 0xF4 then
           utf8_scan 3 (if b = 0xF0 then 0x90 else 0x80) (if b = 0xF4 then 0x8F else 0xBF)
             [byte_char b] bs
         else replacement @ utf8_scan 0 0x80 0xBF [] bs)
      else if b < lo \<or> hi < b then replacement @ utf8_scan 0 0x80 0xBF [] (b # bs)
      else if needed = 1 then seen @ byte_char b # utf8_scan 0 0x80 0xBF [] bs
      else utf8_scan (needed - 1) 0x80 0xBF (seen @ [byte_char b]) bs)"

definition buffer_toString :: "uint8 list \<Rightarrow> string" where
  "buffer_toString buffer = utf8_scan 0 0x80 0xBF [] buffer"

section \<open>The hex decoder\<close>

subsection \<open>\<open>parseInt(text, 16)\<close> and the store into a \<open>Uint8Array\<close>\<close>

text \<open>
  \<open>parseInt\<close> skips leading white space, reads an optional sign, skips an optional
  \<open>0x\<close> or \<open>0X\<close>, and reads the longest run of digits of radix 16. With no digit the
  result is \<open>NaN\<close>, here \<open>None\<close>. The argument is a slice of at most two bytes of a buffer,
  converted to text; among the texts of at most two bytes only the ASCII white space
  characters can come before a digit, and a byte from 0x80 on is never a digit.
\<close>

definition isWhiteSpace :: "char \<Rightarrow> bool" where
  "isWhiteSpace c \<longleftrightarrow> of_char c \<in> {0x09, 0x0A, 0x0B, 0x0C, 0x0D, 0x20 :: nat}"

definition hexDigitValue :: "char \<Rightarrow> nat option" where
  "hexDigitValue c =
     (let n = of_char c :: nat in
      if 0x30 \<le> n \<and> n \<le> 0x39 then Some (n - 0x30)
      else if 0x61 \<le> n \<and> n \<le> 0x66 then Some (n - 0x61 + 10)
      else if 0x41 \<le> n \<and> n \<le> 0x46 then Some (n - 0x41 + 10)
      else None)"

fun hexDigits :: "string \<Rightarrow> nat list" where
  "hexDigits [] = []"
| "hexDigits (c # cs) = (case hexDigitValue c of None \<Rightarrow> [] | Some d \<Rightarrow> d # hexDigits cs)"

definition radix16 :: "nat list \<Rightarrow> nat" where
  "radix16 ds = foldl (\<lambda>a d. 16 * a + d) 0 ds"

definition parseInt16 :: "string \<Rightarrow> int option" where
  "parseInt16 inputString =
     (let S = dropWhile isWhiteSpace inputString;
          sign = (if S \<noteq> [] \<and> hd S = CHR ''-'' then - 1 else 1);
          S1 = (if S \<noteq> [] \<and> (hd S = CHR ''+'' \<or> hd S = CHR ''-'') then tl S else S);
          S2 = (if take 2 S1 = ''0x'' \<or> take 2 S1 = ''0X'' then drop 2 S1 else S1);
          Z = hexDigits S2
      in if Z = [] then None else Some (sign * int (radix16 Z)))"

text \<open>Storing a number into a \<open>Uint8Array\<close>: \<open>NaN\<close> becomes 0, any other value wraps modulo 256.\<close>

definition toUint8 :: "int option \<Rightarrow> uint8" where
  "toUint8 v = (case v of None \<Rightarrow> 0 | Some n \<Rightarrow> word_of_int n)"

text \<open>\<open>s.slice(i, j)\<close> for \<open>0 \<le> i \<le> j\<close>; the end is cut at the length of \<open>s\<close>.\<close>

definition js_slice :: "'a list \<Rightarrow> nat \<Rightarrow> nat \<Rightarrow> 'a list" where
  "js_slice s i j = take (j - i) (drop i s)"

subsection \<open>\<open>decodeHex\<close>\<close>

text \<open>
  The loop of \<open>decodeHex\<close>: \<open>for (let i = 0; i < hexString.length; i += 2)\<close>. The array
  has \<open>hexString.length / 2\<close> elements, the fraction dropped. A store past the end of a
  typed array does nothing, which is what \<open>uint8[i div 2 := byte]\<close> does too.
\<close>

function decodeHex_loop :: "string \<Rightarrow> nat \<Rightarrow> uint8 list \<Rightarrow> uint8 list" where
  "decodeHex_loop hexString i uint8 =
     (if i < length hexString then
        (let hexByte = js_slice hexString i (i + 2);
             byte = parseInt16 hexByte
         in decodeHex_loop hexString (i + 2) (uint8[i div 2 := toUint8 byte]))
      else uint8)"
  by pat_completeness auto
termination
  by (relation "measure (\<lambda>(hexString, i, uint8). length hexString - i)") auto

declare decodeHex_loop.simps [simp del]

definition decodeHex_uint8 :: "string \<Rightarrow> uint8 list" where
  "decodeHex_uint8 hexString =
     decodeHex_loop hexString 0 (replicate (length hexString div 2) 0)"

definition decodeHex :: "string \<Rightarrow> string" where
  "decodeHex hexString = buffer_toString (decodeHex_uint8 hexString)"


text \<open>
  Modelled from the spec: \<open>hexEncode\<close>, the encoding that the decoder undoes, is not in
  the repository (the store tool prints it). Each byte becomes two hex digits, the high
  one first, in lower case or in upper case.
\<close>

definition hexChar :: "bool \<Rightarrow> nat \<Rightarrow> char" where
  "hexChar upper d =
     (if d < 10 then char_of (0x30 + d)
      else if upper then char_of (0x41 + (d - 10))
      else char_of (0x61 + (d - 10)))"

definition hexPair :: "bool \<Rightarrow> uint8 \<Rightarrow> string" where
  "hexPair upper b = [hexChar upper (unat b div 16), hexChar upper (unat b mod 16)]"

definition hexEncode :: "bool \<Rightarrow> uint8 list \<Rightarrow> string" where
  "hexEncode upper bytes = concat (map (hexPair upper) bytes)"

text \<open>The byte that the loop stores at index \<open>j\<close>: the value of the \<open>j\<close>-th pair of characters.\<close>

definition byte_at :: "string \<Rightarrow> nat \<Rightarrow> uint8" where
  "byte_at hexString j = toUint8 (parseInt16 (js_slice hexString (2 * j) (2 * j + 2)))"

definition isHexDigit :: "char \<Rightarrow> bool" where
  "isHexDigit c \<longleftrightarrow> hexDigitValue c \<noteq> None"

section \<open>The wrapper-format detector\<close>

text \<open>
  The values that the external parsers return and take. An object is the list of its own
  properties in the order of \<open>Object.keys\<close>.
\<close>

datatype jsval =
    JUndefined
  | JNull
  | JBool bool
  | JNumber int
  | JString string
  | JArray "jsval list"
  | JObject "(string \<times> jsval) list"

datatype js_error =
    JsError string
  | ChildProcessError "nat option"
  | TypeError
  | ParserError string
  | FsError string

text \<open>
  \<open>e.status\<close>: the exit status of the child process for an error thrown by \<open>execSync\<close>
  (\<open>None\<close> when the child was killed, as it is on a timeout), undefined for any other error.
\<close>

fun status :: "js_error \<Rightarrow> nat option" where
  "status (ChildProcessError st) = st"
| "status _ = None"

text \<open>
  \<open>p.NOTE\<close>: reading the property of \<open>undefined\<close> or \<open>null\<close> throws a \<open>TypeError\<close>; an
  object gives the value of its property or \<open>undefined\<close>; no other value has a property
  of that name.
\<close>

fun get_NOTE :: "jsval \<Rightarrow> js_error + jsval" where
  "get_NOTE JUndefined = Inl TypeError"
| "get_NOTE JNull = Inl TypeError"
| "get_NOTE (JObject props) =
     Inr (case map_of props ''NOTE'' of None \<Rightarrow> JUndefined | Some v \<Rightarrow> v)"
| "get_NOTE _ = Inr JUndefined"

text \<open>\<open>s.indexOf(p)\<close>: the first index at which \<open>p\<close> occurs in \<open>s\<close>, or \<open>-1\<close>.\<close>

fun indexOf_from :: "nat \<Rightarrow> string \<Rightarrow> string \<Rightarrow> int" where
  "indexOf_from k [] p = (if p = [] then int k else - 1)"
| "indexOf_from k (c # cs) p =
     (if prefix p (c # cs) then int k else indexOf_from (Suc k) cs p)"

definition indexOf :: "string \<Rightarrow> string \<Rightarrow> int" where
  "indexOf s p = indexOf_from 0 s p"

definition plistPreamble :: string where
  \<open>plistPreamble =
     ''<!DOCTYPE plist PUBLIC "-//Apple//DTD PLIST 1.0//EN" "http://www.apple.com/DTDs/PropertyList-1.0.dtd">''\<close>

text \<open>
  \<open>noteFromPList\<close>. The property-list parser \<open>plistparser.parse\<close> is an external library:
  it is the parameter \<open>parse\<close>, which returns a value or throws.
\<close>

definition noteFromPList :: "(string \<Rightarrow> js_error + jsval) \<Rightarrow> string \<Rightarrow> js_error + jsval" where
  "noteFromPList parse plistString =
     (if indexOf plistString plistPreamble \<ge> 0 then
        (case parse plistString of
           Inl e \<Rightarrow> Inl e
         | Inr p \<Rightarrow> get_NOTE p)
      else Inr (JString plistString))"

section \<open>The shell-argument escaper\<close>

text \<open>
  \<open>str.replace(/\\([\s\S])|(")/g, "\\$1$2")\<close>. The scan goes from left to right. At a
  backslash that has a character after it the first alternative matches the two of them,
  \<open>$1\<close> is that character and \<open>$2\<close> is empty: the replacement is the backslash and the
  character, as they were. At a double quote the second alternative matches, \<open>$1\<close> is empty
  and \<open>$2\<close> is the quote: the replacement is a backslash and the quote. Any other
  character, and a backslash that ends the text, is not matched and stays.
\<close>

fun escapeDoubleQuotes :: "string \<Rightarrow> string" where
  "escapeDoubleQuotes [] = []"
| "escapeDoubleQuotes [c] = (if c = dquote then [backslash, dquote] else [c])"
| "escapeDoubleQuotes (c # d # rest) =
     (if c = backslash then backslash # d # escapeDoubleQuotes rest
      else if c = dquote then backslash # dquote # escapeDoubleQuotes (d # rest)
      else c # escapeDoubleQuotes (d # rest))"

text \<open>
  The escaping in the words of the specification: a backslash before every backslash and
  before every double quote.
\<close>

definition escape_every :: "string \<Rightarrow> string" where
  "escape_every str =
     concat (map (\<lambda>c. if c = backslash \<or> c = dquote then [backslash, c] else [c]) str)"

section \<open>The gateway and the entry point\<close>

text \<open>
  The options object, a field being \<open>None\<close> when the property is \<open>undefined\<close>, and the state
  that a call can change: the environment of the process, the options object of the caller
  (it is passed by reference) and the commands run by \<open>execSync\<close> so far, each with the
  timeout given to it. The store is reached through these commands only.
\<close>

record options =
  overwrite :: "bool option"
  timeout :: "nat option"
  template :: "string option"
  templatePath :: "string option"

record state =
  env :: "string \<Rightarrow> string option"
  opts :: options
  invocations :: "(string \<times> nat option) list"

text \<open>
  What lies outside the repository: \<open>execSync\<close> runs a command under a timeout and returns
  the bytes of its standard output or throws; \<open>readFileSync\<close> stands for
  \<open>fs.readFileSync(path).toString()\<close>; \<open>plist_parse\<close> is \<open>plistparser.parse\<close>;
  \<open>dotenv_parse\<close> is \<open>dotenv.parse\<close>, its result given as the list of the keys of the
  object, in the order of \<open>Object.keys\<close>, with their values.
\<close>

record world =
  execSync :: "string \<Rightarrow> nat option \<Rightarrow> js_error + string"
  readFileSync :: "string \<Rightarrow> js_error + string"
  plist_parse :: "string \<Rightarrow> js_error + jsval"
  dotenv_parse :: "jsval \<Rightarrow> js_error + (string \<times> string) list"

text \<open>Truthiness of an optional text: \<open>undefined\<close> and the empty text are falsy.\<close>

fun truthy :: "string option \<Rightarrow> bool" where
  "truthy None = False"
| "truthy (Some s) = (s \<noteq> [])"

definition find_cmd :: "string \<Rightarrow> string" where
  \<open>find_cmd noteName =
     ''/usr/bin/security find-generic-password -C note -s "'' @ noteName @ ''" -w''\<close>

definition add_cmd :: "string \<Rightarrow> string \<Rightarrow> string" where
  \<open>add_cmd noteName contents =
     ''/usr/bin/security add-generic-password -D "secure note" -C note -a "" -s "'' @ noteName
       @ ''" -w "'' @ contents @ ''"''\<close>

text \<open>
  \<open>execSync(cmd, { timeout: options.timeout })\<close>: the command is recorded with the timeout
  that the options object holds at that moment.
\<close>

definition run :: "world \<Rightarrow> string \<Rightarrow> state \<Rightarrow> (js_error + string) \<times> state" where
  "run w cmd st =
     (execSync w cmd (timeout (opts st)),
      st\<lparr>invocations := invocations st @ [(cmd, timeout (opts st))]\<rparr>)"

text \<open>
  \<open>writeNote\<close>: the contents are the template when it is truthy, else the text of the
  file at \<open>templatePath\<close> when that is truthy, else the function returns without writing.
  Then the escaping, then the command; an error of the command is thrown again as it is.
\<close>

definition writeNote :: "world \<Rightarrow> string \<Rightarrow> state \<Rightarrow> (js_error + unit) \<times> state" where
  "writeNote w noteName st =
     (let resolved =
        (if truthy (template (opts st)) then Some (Inr (the (template (opts st))))
         else if truthy (templatePath (opts st)) then
           Some (readFileSync w (the (templatePath (opts st))))
         else None)
      in case resolved of
           None \<Rightarrow> (Inr (), st)
         | Some (Inl e) \<Rightarrow> (Inl e, st)
         | Some (Inr contents) \<Rightarrow>
             (let cmd = add_cmd noteName (escapeDoubleQuotes contents);
                  (r, st') = run w cmd st
              in case r of Inl e \<Rightarrow> (Inl e, st') | Inr _ \<Rightarrow> (Inr (), st')))"

text \<open>
  \<open>process.env[k] !== undefined\<close>. The object \<open>process.env\<close> inherits from
  \<open>Object.prototype\<close>: reading a name that is a variable gives its value, and reading a
  name that is no variable gives the property of that name of \<open>Object.prototype\<close> when
  there is one, and \<open>undefined\<close> otherwise. So the test is true for a variable that is
  set and for every property name of \<open>Object.prototype\<close>, set or not.
\<close>

definition object_prototype_names :: "string list" where
  "object_prototype_names =
     [''constructor'', ''__defineGetter__'', ''__defineSetter__'', ''hasOwnProperty'',
      ''__lookupGetter__'', ''__lookupSetter__'', ''isPrototypeOf'', ''propertyIsEnumerable'',
      ''toString'', ''valueOf'', ''__proto__'', ''toLocaleString'']"

definition env_defined :: "(string \<Rightarrow> string option) \<Rightarrow> string \<Rightarrow> bool" where
  "env_defined e k \<longleftrightarrow> e k \<noteq> None \<or> k \<in> set object_prototype_names"

text \<open>
  The loop over \<open>Object.keys(vars)\<close> that sets the variables; the assignment
  \<open>process.env[k] = vars[k]\<close> sets the variable \<open>k\<close>.
\<close>

fun setEnv_loop :: "bool \<Rightarrow> (string \<times> string) list \<Rightarrow> (string \<Rightarrow> string option) \<Rightarrow> string \<Rightarrow> string option" where
  "setEnv_loop ow [] e = e"
| "setEnv_loop ow ((k, v) # vars) e =
     (if env_defined e k \<and> \<not> ow then setEnv_loop ow vars e
      else setEnv_loop ow vars (e(k \<mapsto> v)))"

text \<open>
  The two assignments \<open>options.overwrite = false\<close> and \<open>options.timeout = 5000\<close>, each made
  when the property is \<open>undefined\<close>.
\<close>

definition default_options :: "options \<Rightarrow> options" where
  "default_options opt =
     (let o1 = (if overwrite opt = None then opt\<lparr>overwrite := Some False\<rparr> else opt);
          o2 = (if timeout o1 = None then o1\<lparr>timeout := Some 5000\<rparr> else o1)
      in o2)"

text \<open>
  \<open>setEnvFromNote\<close>. After the \<open>try\<close> the variable \<open>stdout\<close> is either the buffer that
  \<open>execSync\<close> returned or still \<open>undefined\<close>, here \<open>None\<close>: the \<open>catch\<close> throws the error
  again unless its status is 44 and a template option is not \<open>undefined\<close>. A buffer is
  an object and so truthy even when it is empty: \<open>if (stdout)\<close> asks whether there is one.
\<close>

definition setEnvFromNote :: "world \<Rightarrow> string \<Rightarrow> state \<Rightarrow> (js_error + unit) \<times> state" where
  "setEnvFromNote w noteName st0 =
     (if noteName = [] then (Inl (JsError ''You must supply a note name''), st0)
      else
        (let st1 = st0\<lparr>opts := default_options (opts st0)\<rparr>;
             (r, st2) = run w (find_cmd noteName) st1;
             caught =
               (case r of
                  Inr out \<Rightarrow> Inr (Some out)
                | Inl e \<Rightarrow>
                    if status e = Some 44 then
                      (if template (opts st2) = None \<and> templatePath (opts st2) = None
                       then Inl e else Inr None)
                    else Inl e)
         in case caught of
              Inl e \<Rightarrow> (Inl e, st2)
            | Inr (Some stdout) \<Rightarrow>
                (case noteFromPList (plist_parse w) (decodeHex stdout) of
                   Inl e \<Rightarrow> (Inl e, st2)
                 | Inr note \<Rightarrow>
                     (case dotenv_parse w note of
                        Inl e \<Rightarrow> (Inl e, st2)
                      | Inr vars \<Rightarrow>
                          (Inr (),
                           st2\<lparr>env := setEnv_loop (overwrite (opts st2) = Some True) vars (env st2)\<rparr>)))
            | Inr None \<Rightarrow> writeNote w noteName st2))"

section \<open>Concrete stores, documents and states\<close>

text \<open>
  A store that holds the record \<open>App.env\<close> with the note \<open>FOO=new\<close>, \<open>BAR=new\<close>: the tool
  prints the note in hex, with a line feed after it.
\<close>

definition newline :: char where
  "newline = CHR 0x0A"

definition example_note :: string where
  "example_note = ''FOO=new'' @ [newline] @ ''BAR=new'' @ [newline]"

definition example_stdout :: string where
  "example_stdout = ''464f4f3d6e65770a4241523d6e65770a'' @ [newline]"

definition found_world :: world where
  "found_world =
     \<lparr>execSync = (\<lambda>cmd t. if cmd = find_cmd ''App.env'' then Inr example_stdout
                            else Inl (ChildProcessError (Some 1))),
      readFileSync = (\<lambda>path. Inl (FsError ''ENOENT'')),
      plist_parse = (\<lambda>s. Inl (ParserError ''no property list'')),
      dotenv_parse = (\<lambda>v. if v = JString example_note
                            then Inr [(''FOO'', ''new''), (''BAR'', ''new'')] else Inr [])\<rparr>"

text \<open>
  A store that holds the record \<open>App.env\<close> with the note \<open>constructor=x\<close>, \<open>BAR=new\<close>.
\<close>

definition inherited_note :: string where
  "inherited_note = ''constructor=x'' @ [newline] @ ''BAR=new'' @ [newline]"

definition inherited_stdout :: string where
  "inherited_stdout = ''636f6e7374727563746f723d780a4241523d6e65770a'' @ [newline]"

definition inherited_world :: world where
  "inherited_world =
     \<lparr>execSync = (\<lambda>cmd t. if cmd = find_cmd ''App.env'' then Inr inherited_stdout
                            else Inl (ChildProcessError (Some 1))),
      readFileSync = (\<lambda>path. Inl (FsError ''ENOENT'')),
      plist_parse = (\<lambda>s. Inl (ParserError ''no property list'')),
      dotenv_parse = (\<lambda>v. if v = JString inherited_note
                            then Inr [(''constructor'', ''x''), (''BAR'', ''new'')] else Inr [])\<rparr>"

text \<open>
  A store without the record: the read exits with status 44, any other command succeeds
  with no output. The file \<open>variables.env.template\<close> holds \<open>Y=2\<close>.
\<close>

definition absent_world :: world where
  "absent_world =
     \<lparr>execSync = (\<lambda>cmd t. if cmd = find_cmd ''App.env'' then Inl (ChildProcessError (Some 44))
                            else Inr []),
      readFileSync = (\<lambda>path. if path = ''variables.env.template'' then Inr ''Y=2''
                              else Inl (FsError ''ENOENT'')),
      plist_parse = (\<lambda>s. Inl (ParserError ''no property list'')),
      dotenv_parse = (\<lambda>v. Inr [])\<rparr>"


definition no_options :: options where
  "no_options = \<lparr>overwrite = None, timeout = None, template = None, templatePath = None\<rparr>"

definition foo_state :: "options \<Rightarrow> state" where
  "foo_state opt = \<lparr>env = [''FOO'' \<mapsto> ''old''], opts = opt, invocations = []\<rparr>"

text \<open>Two documents with the preamble, and a parser that knows them.\<close>

definition wrapped_doc :: string where
  \<open>wrapped_doc =
     plistPreamble @ ''<plist version="1.0"><dict><key>NOTE</key><string>A=1</string></dict></plist>''\<close>

definition empty_dict_doc :: string where
  \<open>empty_dict_doc = plistPreamble @ ''<plist version="1.0"><dict/></plist>''\<close>

definition example_plist_parse :: "string \<Rightarrow> js_error + jsval" where
  "example_plist_parse s =
     (if s = wrapped_doc then Inr (JObject [(''NOTE'', JString ''A=1'')])
      else if s = empty_dict_doc then Inr (JObject [])
      else Inl (ParserError ''no property list''))"

section \<open>Notions used to state the properties\<close>

text \<open>
  Well-formed UTF-8, after the table of the Unicode standard: the byte sequences that are
  the encoding of some text.
\<close>

definition continuation :: "uint8 \<Rightarrow> bool" where
  "continuation b \<longleftrightarrow> 0x80 \<le> b \<and> b \<le> 0xBF"

fun utf8_wellformed :: "uint8 list \<Rightarrow> bool" where
  "utf8_wellformed [] = True"
| "utf8_wellformed (b # bs) =
     (if b \<le> 0x7F then utf8_wellformed bs
      else if 0xC2 \<le> b \<and> b \<le> 0xDF then
        (case bs of
           c1 # rest \<Rightarrow> continuation c1 \<and> utf8_wellformed rest
         | _ \<Rightarrow> False)
      else if 0xE0 \<le> b \<and> b \<le> 0xEF then
        (case bs of
           c1 # c2 # rest \<Rightarrow>
             (if b = 0xE0 then 0xA0 else 0x80) \<le> c1 \<and> c1 \<le> (if b = 0xED then 0x9F else 0xBF) \<and>
             continuation c2 \<and> utf8_wellformed rest
         | _ \<Rightarrow> False)
      else if 0xF0 \<le> b \<and> b \<le> 0xF4 then
        (case bs of
           c1 # c2 # c3 # rest \<Rightarrow>
             (if b = 0xF0 then 0x90 else 0x80) \<le> c1 \<and> c1 \<le> (if b = 0xF4 then 0x8F else 0xBF) \<and>
             continuation c2 \<and> continuation c3 \<and> utf8_wellformed rest
         | _ \<Rightarrow> False)
      else False)"

text \<open>
  The state after the defaults are written into the options object and the read command
  has run, and the state after a write command for \<open>contents\<close> has run as well; the outcome
  of that write command.
\<close>

definition after_read :: "string \<Rightarrow> state \<Rightarrow> state" where
  "after_read noteName st =
     st\<lparr>opts := default_options (opts st),
        invocations := invocations st @ [(find_cmd noteName, timeout (default_options (opts st)))]\<rparr>"

definition after_write :: "string \<Rightarrow> string \<Rightarrow> state \<Rightarrow> state" where
  "after_write noteName contents st =
     st\<lparr>invocations := invocations st @
        [(add_cmd noteName (escapeDoubleQuotes contents), timeout (opts st))]\<rparr>"

definition write_outcome :: "world \<Rightarrow> string \<Rightarrow> string \<Rightarrow> state \<Rightarrow> js_error + unit" where
  "write_outcome w noteName contents st =
     (case execSync w (add_cmd noteName (escapeDoubleQuotes contents)) (timeout (opts st)) of
        Inl e \<Rightarrow> Inl e
      | Inr out \<Rightarrow> Inr ())"

text \<open>
  The outcomes of a call. \<open>merged_from_record\<close>: the record was found, extracted and
  parsed, the call succeeds and the environment is the merge of the whole mapping.
  \<open>write_attempted\<close>: after the read one write command ran, the environment is as before,
  and the call succeeds or fails as that command does. \<open>failed_untouched\<close>: the call
  fails, the environment is as before and no command other than the read ran.
  \<open>returned_idle\<close>: the record is absent, a template option is given but both are empty,
  and the call returns normally having changed neither the environment nor the store.
\<close>

definition merged_from_record :: "world \<Rightarrow> string \<Rightarrow> state \<Rightarrow> bool" where
  "merged_from_record w noteName st \<longleftrightarrow>
     (\<exists>out note vars.
        execSync w (find_cmd noteName) (timeout (default_options (opts st))) = Inr out \<and>
        noteFromPList (plist_parse w) (decodeHex out) = Inr note \<and>
        dotenv_parse w note = Inr vars \<and>
        fst (setEnvFromNote w noteName st) = Inr () \<and>
        env (snd (setEnvFromNote w noteName st)) =
          setEnv_loop (overwrite (opts st) = Some True) vars (env st) \<and>
        invocations (snd (setEnvFromNote w noteName st)) =
          invocations st @ [(find_cmd noteName, timeout (default_options (opts st)))])"

definition write_attempted :: "world \<Rightarrow> string \<Rightarrow> state \<Rightarrow> bool" where
  "write_attempted w noteName st \<longleftrightarrow>
     (\<exists>contents.
        invocations (snd (setEnvFromNote w noteName st)) =
          invocations st @
            [(find_cmd noteName, timeout (default_options (opts st))),
             (add_cmd noteName contents, timeout (default_options (opts st)))] \<and>
        env (snd (setEnvFromNote w noteName st)) = env st \<and>
        fst (setEnvFromNote w noteName st) =
          (case execSync w (add_cmd noteName contents) (timeout (default_options (opts st))) of
             Inl e \<Rightarrow> Inl e
           | Inr out \<Rightarrow> Inr ()))"

definition failed_untouched :: "world \<Rightarrow> string \<Rightarrow> state \<Rightarrow> bool" where
  "failed_untouched w noteName st \<longleftrightarrow>
     (\<exists>e. fst (setEnvFromNote w noteName st) = Inl e) \<and>
     env (snd (setEnvFromNote w noteName st)) = env st \<and>
     (invocations (snd (setEnvFromNote w noteName st)) = invocations st \<or>
      invocations (snd (setEnvFromNote w noteName st)) =
        invocations st @ [(find_cmd noteName, timeout (default_options (opts st)))])"

definition returned_idle :: "world \<Rightarrow> string \<Rightarrow> state \<Rightarrow> bool" where
  "returned_idle w noteName st \<longleftrightarrow>
     (\<exists>e. execSync w (find_cmd noteName) (timeout (default_options (opts st))) = Inl e \<and>
          status e = Some 44) \<and>
     (template (opts st) \<noteq> None \<or> templatePath (opts st) \<noteq> None) \<and>
     \<not> truthy (template (opts st)) \<and> \<not> truthy (templatePath (opts st)) \<and>
     fst (setEnvFromNote w noteName st) = Inr () \<and>
     env (snd (setEnvFromNote w noteName st)) = env st \<and>
     invocations (snd (setEnvFromNote w noteName st)) =
       invocations st @ [(find_cmd noteName, timeout (default_options (opts st)))]"

text \<open>A state whose options hold a literal template, over the environment \<open>FOO=old\<close>.\<close>

definition template_state :: "string \<Rightarrow> state" where
  "template_state t = foo_state (no_options\<lparr>template := Some t\<rparr>)"

section \<open>The hex decoder: what the loop computes\<close>

lemma decodeHex_loop_inv:
  "length u = length s div 2 \<Longrightarrow>
   decodeHex_loop s (2 * k) u = take k u @ map (byte_at s) [k..<length s div 2]"
proof (induction "length s - 2 * k" arbitrary: k u rule: less_induct)
  case less
  show ?case
  proof (cases "2 * k < length s")
    case False
    then have "length s div 2 \<le> k" by arith
    with False less.prems show ?thesis
      by (simp add: decodeHex_loop.simps [of s "2 * k"])
  next
    case True
    let ?u = "u[k := byte_at s k]"
    have step: "decodeHex_loop s (2 * k) u = decodeHex_loop s (2 * Suc k) ?u"
      using True by (simp add: decodeHex_loop.simps [of s "2 * k"] byte_at_def Let_def)
    have ih: "decodeHex_loop s (2 * Suc k) ?u = take (Suc k) ?u @ map (byte_at s) [Suc k..<length s div 2]"
      using True less.prems by (intro less.hyps) auto
    show ?thesis
    proof (cases "k < length s div 2")
      case True
      then have "take (Suc k) ?u = take k u @ [byte_at s k]"
        using less.prems by (simp add: take_Suc_conv_app_nth)
      moreover have "[k..<length s div 2] = k # [Suc k..<length s div 2]"
        using True by (simp add: upt_conv_Cons)
      ultimately show ?thesis using step ih by simp
    next
      case False
      then have "?u = u" using less.prems by (simp add: list_update_beyond)
      with False show ?thesis using step ih less.prems by simp
    qed
  qed
qed

lemma decodeHex_uint8_eq:
  "decodeHex_uint8 s = map (byte_at s) [0..<length s div 2]"
  using decodeHex_loop_inv [of "replicate (length s div 2) 0" s 0]
  by (simp add: decodeHex_uint8_def)

lemma hexDigitValue_hexChar: "d < 16 \<Longrightarrow> hexDigitValue (hexChar upper d) = Some d"
  by (auto simp add: hexDigitValue_def hexChar_def Let_def)

lemma hexChar_not_ws: "d < 16 \<Longrightarrow> \<not> isWhiteSpace (hexChar upper d)"
  by (auto simp add: isWhiteSpace_def hexChar_def)

lemma hexChar_not_sign:
  "d < 16 \<Longrightarrow> hexChar upper d \<noteq> CHR ''-'' \<and> hexChar upper d \<noteq> CHR ''+''"
  by (auto simp add: hexChar_def char_of_eq_iff take_bit_eq_mod)

lemma hexChar_not_x:
  "d < 16 \<Longrightarrow> hexChar upper d \<noteq> CHR ''x'' \<and> hexChar upper d \<noteq> CHR ''X''"
  by (auto simp add: hexChar_def char_of_eq_iff take_bit_eq_mod)

lemma parseInt16_hexPair: "parseInt16 (hexPair upper b) = Some (uint b)"
proof -
  have hi: "unat b div 16 < 16" using unsigned_less [of b, where ?'a = nat] by simp
  have lo: "unat b mod 16 < 16" by simp
  have "radix16 [unat b div 16, unat b mod 16] = unat b"
    by (simp add: radix16_def)
  then show ?thesis
    using hexDigitValue_hexChar [OF hi, of upper] hexDigitValue_hexChar [OF lo, of upper]
      hexChar_not_ws [OF hi, of upper] hexChar_not_sign [OF hi, of upper]
      hexChar_not_x [OF lo, of upper]
    by (simp add: parseInt16_def hexPair_def Let_def)
qed

lemma toUint8_parseInt16_hexPair: "toUint8 (parseInt16 (hexPair upper b)) = b"
  by (simp add: parseInt16_hexPair toUint8_def)

lemma length_hexEncode: "length (hexEncode upper bytes) = 2 * length bytes"
  by (induction bytes) (simp_all add: hexEncode_def hexPair_def)

lemma drop_hexEncode: "drop (2 * j) (hexEncode upper bytes) = hexEncode upper (drop j bytes)"
proof (induction bytes arbitrary: j)
  case Nil
  then show ?case by (simp add: hexEncode_def)
next
  case (Cons b bytes)
  show ?case
  proof (cases j)
    case 0
    then show ?thesis by simp
  next
    case (Suc j')
    then show ?thesis using Cons.IH [of j'] by (simp add: hexEncode_def hexPair_def)
  qed
qed

lemma slice_hexEncode:
  "j < length bytes \<Longrightarrow> js_slice (hexEncode upper bytes) (2 * j) (2 * j + 2) = hexPair upper (bytes ! j)"
proof -
  assume j: "j < length bytes"
  then obtain b rest where d: "drop j bytes = b # rest" and b: "b = bytes ! j"
    by (metis Cons_nth_drop_Suc)
  show ?thesis
    by (simp add: js_slice_def drop_hexEncode d b [symmetric]) (simp add: hexEncode_def hexPair_def)
qed

lemma byte_at_hexEncode: "j < length bytes \<Longrightarrow> byte_at (hexEncode upper bytes) j = bytes ! j"
  using slice_hexEncode [of j bytes upper]
  by (simp add: byte_at_def toUint8_parseInt16_hexPair)

lemma decodeHex_uint8_hexEncode: "decodeHex_uint8 (hexEncode upper bytes) = bytes"
proof -
  have "map (byte_at (hexEncode upper bytes)) [0..<length bytes] = map ((!) bytes) [0..<length bytes]"
    by (rule map_cong) (simp_all add: byte_at_hexEncode)
  then show ?thesis
    by (simp add: decodeHex_uint8_eq length_hexEncode map_nth)
qed

section \<open>Helper facts on the merge and the search\<close>

lemma env_defined_other:
  "k \<noteq> k' \<Longrightarrow> env_defined (e(k' \<mapsto> v)) k = env_defined e k"
  by (simp add: env_defined_def)

lemma setEnv_loop_lookup:
  "distinct (map fst vars) \<Longrightarrow>
   setEnv_loop ow vars e k =
     (case map_of vars k of
        None \<Rightarrow> e k
      | Some v \<Rightarrow> if \<not> env_defined e k \<or> ow then Some v else e k)"
proof (induction vars arbitrary: e)
  case Nil
  then show ?case by simp
next
  case (Cons kv vars)
  obtain k' v' where kv: "kv = (k', v')" by (cases kv)
  from Cons.prems kv have d: "distinct (map fst vars)" and notin: "k' \<notin> fst ` set vars"
    by simp_all
  from notin have none: "map_of vars k' = None"
    by (simp add: map_of_eq_None_iff)
  show ?case
  proof (cases "k = k'")
    case True
    then show ?thesis
      using Cons.IH [OF d] none by (auto simp add: kv)
  next
    case False
    then show ?thesis
      using Cons.IH [OF d] by (auto simp add: kv env_defined_other split: option.splits)
  qed
qed

lemma indexOf_from_sublist: "0 \<le> indexOf_from k s p \<longleftrightarrow> sublist p s"
  by (induction k s p rule: indexOf_from.induct) (auto simp add: sublist_Cons_right)

lemma indexOf_sublist: "0 \<le> indexOf s p \<longleftrightarrow> sublist p s"
  by (simp add: indexOf_def indexOf_from_sublist)

section \<open>Helper facts on the decoder of UTF-8\<close>

lemma scan_cont1:
  "lo \<le> c \<Longrightarrow> c \<le> hi \<Longrightarrow>
   utf8_scan 1 lo hi seen (c # bs) = seen @ byte_char c # utf8_scan 0 0x80 0xBF [] bs"
  by (simp add: not_less [symmetric])

lemma scan_cont2:
  "lo \<le> c \<Longrightarrow> c \<le> hi \<Longrightarrow>
   utf8_scan 2 lo hi seen (c # bs) = utf8_scan 1 0x80 0xBF (seen @ [byte_char c]) bs"
  by (simp add: not_less [symmetric])

lemma scan_cont3:
  "lo \<le> c \<Longrightarrow> c \<le> hi \<Longrightarrow>
   utf8_scan 3 lo hi seen (c # bs) = utf8_scan 2 0x80 0xBF (seen @ [byte_char c]) bs"
  by (simp add: not_less [symmetric])

lemma scan_lead1:
  "b \<le> 0x7F \<Longrightarrow> utf8_scan 0 lo hi seen (b # bs) = byte_char b # utf8_scan 0 0x80 0xBF [] bs"
  by simp

lemma scan_lead2:
  "\<not> b \<le> 0x7F \<Longrightarrow> 0xC2 \<le> b \<and> b \<le> 0xDF \<Longrightarrow>
   utf8_scan 0 lo hi seen (b # bs) = utf8_scan 1 0x80 0xBF [byte_char b] bs"
  by simp

lemma scan_lead3:
  assumes "\<not> b \<le> 0x7F" and "\<not> (0xC2 \<le> b \<and> b \<le> 0xDF)" and "0xE0 \<le> b \<and> b \<le> 0xEF"
  shows "utf8_scan 0 lo hi seen (b # bs) =
     utf8_scan 2 (if b = 0xE0 then 0xA0 else 0x80) (if b = 0xED then 0x9F else 0xBF) [byte_char b] bs"
  by (subst utf8_scan.simps) (simp only: assms if_True if_False simp_thms)

lemma scan_lead4:
  assumes "\<not> b \<le> 0x7F" and "\<not> (0xC2 \<le> b \<and> b \<le> 0xDF)" and "\<not> (0xE0 \<le> b \<and> b \<le> 0xEF)"
    and "0xF0 \<le> b \<and> b \<le> 0xF4"
  shows "utf8_scan 0 lo hi seen (b # bs) =
     utf8_scan 3 (if b = 0xF0 then 0x90 else 0x80) (if b = 0xF4 then 0x8F else 0xBF) [byte_char b] bs"
  by (subst utf8_scan.simps) (simp only: assms if_True if_False simp_thms)

lemma utf8_scan_wellformed:
  "utf8_wellformed bytes \<Longrightarrow> utf8_scan 0 0x80 0xBF [] bytes = map byte_char bytes"
proof (induction bytes rule: utf8_wellformed.induct)
  case 1
  then show ?case by simp
next
  case (2 b bs)
  show ?case
  proof (cases "b \<le> 0x7F")
    case True
    with "2.prems" have "utf8_wellformed bs" by simp
    with True "2.IH"(1) show ?thesis by (simp only: scan_lead1 list.map)
  next
    case a: False
    show ?thesis
    proof (cases "0xC2 \<le> b \<and> b \<le> 0xDF")
      case True
      with a "2.prems" obtain c1 rest where bs: "bs = c1 # rest"
        and c1: "0x80 \<le> c1" "c1 \<le> 0xBF" and wf: "utf8_wellformed rest"
        by (cases bs) (simp_all add: continuation_def)
      from "2.IH"(2) [OF a True bs wf] show ?thesis
        by (simp only: bs scan_lead2 [OF a True] scan_cont1 [OF c1] list.map append.simps)
    next
      case b2: False
      show ?thesis
      proof (cases "0xE0 \<le> b \<and> b \<le> 0xEF")
        case True
        with a b2 "2.prems" obtain c1 c2 rest where bs: "bs = c1 # c2 # rest"
          and c1: "(if b = 0xE0 then 0xA0 else 0x80) \<le> c1" "c1 \<le> (if b = 0xED then 0x9F else 0xBF)"
          and c2: "0x80 \<le> c2" "c2 \<le> 0xBF" and wf: "utf8_wellformed rest"
          by (cases bs; cases "tl bs") (simp_all add: continuation_def)
        have tl: "c2 # rest = c2 # rest" ..
        from "2.IH"(3) [OF a b2 True bs tl wf] show ?thesis
          by (simp only: bs scan_lead3 [OF a b2 True] scan_cont2 [OF c1] scan_cont1 [OF c2]
              list.map append.simps)
      next
        case b3: False
        with a b2 "2.prems" have b4: "0xF0 \<le> b \<and> b \<le> 0xF4"
          by (simp split: if_splits)
        with a b2 b3 "2.prems" obtain c1 c2 c3 rest where bs: "bs = c1 # c2 # c3 # rest"
          and c1: "(if b = 0xF0 then 0x90 else 0x80) \<le> c1" "c1 \<le> (if b = 0xF4 then 0x8F else 0xBF)"
          and c2: "0x80 \<le> c2" "c2 \<le> 0xBF" and c3: "0x80 \<le> c3" "c3 \<le> 0xBF"
          and wf: "utf8_wellformed rest"
          by (cases bs; cases "tl bs"; cases "tl (tl bs)") (simp_all add: continuation_def)
        have tl1: "c2 # c3 # rest = c2 # c3 # rest" ..
        have tl2: "c3 # rest = c3 # rest" ..
        from "2.IH"(4) [OF a b2 b3 b4 bs tl1 tl2 wf] show ?thesis
          by (simp only: bs scan_lead4 [OF a b2 b3 b4] scan_cont3 [OF c1] scan_cont2 [OF c2]
              scan_cont1 [OF c3] list.map append.simps)
      qed
    qed
  qed
qed

section \<open>Helper facts on the paths of the entry point\<close>

lemma default_options_fields [simp]:
  "template (default_options opt) = template opt"
  "templatePath (default_options opt) = templatePath opt"
  "overwrite (default_options opt) = (case overwrite opt of None \<Rightarrow> Some False | Some b \<Rightarrow> Some b)"
  "timeout (default_options opt) = (case timeout opt of None \<Rightarrow> Some 5000 | Some t \<Rightarrow> Some t)"
  by (simp_all add: default_options_def Let_def split: option.splits)

lemma after_read_fields [simp]:
  "env (after_read noteName st) = env st"
  "opts (after_read noteName st) = default_options (opts st)"
  "invocations (after_read noteName st) =
     invocations st @ [(find_cmd noteName, timeout (default_options (opts st)))]"
  by (simp_all add: after_read_def)

lemma setEnvFromNote_no_name:
  "setEnvFromNote w [] st = (Inl (JsError ''You must supply a note name''), st)"
  by (simp add: setEnvFromNote_def)

lemma setEnvFromNote_read_error:
  assumes "noteName \<noteq> []"
    and "execSync w (find_cmd noteName) (timeout (default_options (opts st))) = Inl e"
    and "status e \<noteq> Some 44"
  shows "setEnvFromNote w noteName st = (Inl e, after_read noteName st)"
  using assms by (simp add: setEnvFromNote_def run_def after_read_def Let_def)

lemma setEnvFromNote_absent_no_template:
  assumes "noteName \<noteq> []"
    and "execSync w (find_cmd noteName) (timeout (default_options (opts st))) = Inl e"
    and "status e = Some 44"
    and "template (opts st) = None" and "templatePath (opts st) = None"
  shows "setEnvFromNote w noteName st = (Inl e, after_read noteName st)"
  using assms by (simp add: setEnvFromNote_def run_def after_read_def Let_def)

lemma setEnvFromNote_absent_template:
  assumes "noteName \<noteq> []"
    and "execSync w (find_cmd noteName) (timeout (default_options (opts st))) = Inl e"
    and "status e = Some 44"
    and "template (opts st) \<noteq> None \<or> templatePath (opts st) \<noteq> None"
  shows "setEnvFromNote w noteName st = writeNote w noteName (after_read noteName st)"
  using assms by (auto simp add: setEnvFromNote_def run_def after_read_def Let_def)

lemma setEnvFromNote_found:
  assumes "noteName \<noteq> []"
    and "execSync w (find_cmd noteName) (timeout (default_options (opts st))) = Inr out"
  shows "setEnvFromNote w noteName st =
     (case noteFromPList (plist_parse w) (decodeHex out) of
        Inl e \<Rightarrow> (Inl e, after_read noteName st)
      | Inr note \<Rightarrow>
          (case dotenv_parse w note of
             Inl e \<Rightarrow> (Inl e, after_read noteName st)
           | Inr vars \<Rightarrow>
               (Inr (), (after_read noteName st)
                  \<lparr>env := setEnv_loop (overwrite (opts st) = Some True) vars (env st)\<rparr>)))"
proof -
  have ow: "((case overwrite (opts st) of None \<Rightarrow> Some False | Some b \<Rightarrow> Some b) = Some True)
      = (overwrite (opts st) = Some True)"
    by (cases "overwrite (opts st)") simp_all
  show ?thesis
    using assms
    by (simp add: setEnvFromNote_def run_def after_read_def Let_def ow split: sum.splits)
qed

lemma after_write_fields [simp]:
  "env (after_write noteName contents st) = env st"
  "opts (after_write noteName contents st) = opts st"
  "invocations (after_write noteName contents st) =
     invocations st @ [(add_cmd noteName (escapeDoubleQuotes contents), timeout (opts st))]"
  by (simp_all add: after_write_def)

lemma writeNote_template:
  assumes "template (opts st) = Some contents" and "contents \<noteq> []"
  shows "writeNote w noteName st =
           (write_outcome w noteName contents st, after_write noteName contents st)"
  using assms
  by (simp add: writeNote_def run_def after_write_def write_outcome_def Let_def split: sum.splits)

lemma writeNote_templatePath:
  assumes "\<not> truthy (template (opts st))"
    and "templatePath (opts st) = Some path" and "path \<noteq> []"
    and "readFileSync w path = Inr contents"
  shows "writeNote w noteName st =
           (write_outcome w noteName contents st, after_write noteName contents st)"
  using assms
  by (simp add: writeNote_def run_def after_write_def write_outcome_def Let_def split: sum.splits)

lemma writeNote_unreadable:
  assumes "\<not> truthy (template (opts st))"
    and "templatePath (opts st) = Some path" and "path \<noteq> []"
    and "readFileSync w path = Inl e"
  shows "writeNote w noteName st = (Inl e, st)"
  using assms by (simp add: writeNote_def)

lemma writeNote_nothing:
  assumes "\<not> truthy (template (opts st))" and "\<not> truthy (templatePath (opts st))"
  shows "writeNote w noteName st = (Inr (), st)"
  using assms by (simp add: writeNote_def)

lemma setEnvFromNote_found_env:
  assumes "noteName \<noteq> []"
    and "execSync w (find_cmd noteName) (timeout (default_options (opts st))) = Inr stdout"
    and "noteFromPList (plist_parse w) (decodeHex stdout) = Inr nt"
    and "dotenv_parse w nt = Inr vars"
    and "distinct (map fst vars)"
  shows "fst (setEnvFromNote w noteName st) = Inr () \<and>
         env (snd (setEnvFromNote w noteName st)) k =
           (case map_of vars k of
              None \<Rightarrow> env st k
            | Some v \<Rightarrow>
                if \<not> env_defined (env st) k \<or> overwrite (opts st) = Some True then Some v
                else env st k)"
proof -
  from setEnvFromNote_found [OF assms(1,2)] assms(3,4)
  have "setEnvFromNote w noteName st =
          (Inr (), (after_read noteName st)
             \<lparr>env := setEnv_loop (overwrite (opts st) = Some True) vars (env st)\<rparr>)"
    by simp
  then show ?thesis
    using setEnv_loop_lookup [OF assms(5)] by simp
qed

lemma writeNote_cases:
  "(\<exists>contents. writeNote w noteName st =
       (write_outcome w noteName contents st, after_write noteName contents st)) \<or>
   (\<exists>e. writeNote w noteName st = (Inl e, st)) \<or>
   (\<not> truthy (template (opts st)) \<and> \<not> truthy (templatePath (opts st)) \<and>
      writeNote w noteName st = (Inr (), st))"
proof (cases "truthy (template (opts st))")
  case True
  then obtain contents where "template (opts st) = Some contents" "contents \<noteq> []"
    by (cases "template (opts st)") simp_all
  then show ?thesis using writeNote_template by blast
next
  case no_template: False
  show ?thesis
  proof (cases "truthy (templatePath (opts st))")
    case True
    then obtain path where p: "templatePath (opts st) = Some path" "path \<noteq> []"
      by (cases "templatePath (opts st)") simp_all
    show ?thesis
    proof (cases "readFileSync w path")
      case (Inl e)
      with no_template p show ?thesis using writeNote_unreadable by blast
    next
      case (Inr contents)
      with no_template p show ?thesis using writeNote_templatePath by blast
    qed
  next
    case False
    with no_template show ?thesis using writeNote_nothing by blast
  qed
qed

lemma setEnvFromNote_classified:
  "merged_from_record w noteName st \<or> write_attempted w noteName st \<or>
   failed_untouched w noteName st \<or> returned_idle w noteName st"
proof (cases "noteName = []")
  case True
  then have "failed_untouched w noteName st"
    by (simp add: failed_untouched_def setEnvFromNote_no_name)
  then show ?thesis by blast
next
  case name: False
  show ?thesis
  proof (cases "execSync w (find_cmd noteName) (timeout (default_options (opts st)))")
    case (Inr out)
    note found = setEnvFromNote_found [OF name Inr]
    show ?thesis
    proof (cases "noteFromPList (plist_parse w) (decodeHex out)")
      case (Inl e1)
      then have "failed_untouched w noteName st"
        by (simp add: failed_untouched_def found)
      then show ?thesis by blast
    next
      case extracted: (Inr nt)
      show ?thesis
      proof (cases "dotenv_parse w nt")
        case (Inl e2)
        with extracted have "failed_untouched w noteName st"
          by (simp add: failed_untouched_def found)
        then show ?thesis by blast
      next
        case parsed: (Inr vars)
        with extracted have "setEnvFromNote w noteName st =
            (Inr (), (after_read noteName st)
                \<lparr>env := setEnv_loop (overwrite (opts st) = Some True) vars (env st)\<rparr>)"
          by (simp add: found)
        with Inr extracted parsed have "merged_from_record w noteName st"
          unfolding merged_from_record_def
          by (intro exI [of _ out] exI [of _ nt] exI [of _ vars]) simp
        then show ?thesis by blast
      qed
    qed
  next
    case (Inl e0)
    show ?thesis
    proof (cases "status e0 = Some 44")
      case False
      from setEnvFromNote_read_error [OF name Inl False]
      have "failed_untouched w noteName st"
        by (simp add: failed_untouched_def)
      then show ?thesis by blast
    next
      case absent: True
      show ?thesis
      proof (cases "template (opts st) = None \<and> templatePath (opts st) = None")
        case True
        with setEnvFromNote_absent_no_template [OF name Inl absent]
        have "failed_untouched w noteName st"
          by (simp add: failed_untouched_def)
        then show ?thesis by blast
      next
        case False
        then have given: "template (opts st) \<noteq> None \<or> templatePath (opts st) \<noteq> None"
          by simp
        note eq = setEnvFromNote_absent_template [OF name Inl absent given]
        from writeNote_cases [of w noteName "after_read noteName st"]
        consider contents where "writeNote w noteName (after_read noteName st) =
             (write_outcome w noteName contents (after_read noteName st),
              after_write noteName contents (after_read noteName st))"
          | e1 where "writeNote w noteName (after_read noteName st) = (Inl e1, after_read noteName st)"
          | "\<not> truthy (template (opts st))" "\<not> truthy (templatePath (opts st))"
            "writeNote w noteName (after_read noteName st) = (Inr (), after_read noteName st)"
          by auto
        then show ?thesis
        proof cases
          case 1
          then have "write_attempted w noteName st"
            unfolding write_attempted_def
            by (intro exI [of _ "escapeDoubleQuotes contents"]) (simp add: eq write_outcome_def)
          then show ?thesis by blast
        next
          case 2
          then have "failed_untouched w noteName st"
            by (simp add: failed_untouched_def eq)
          then show ?thesis by blast
        next
          case 3
          with Inl absent given have "returned_idle w noteName st"
            by (simp add: returned_idle_def eq)
          then show ?thesis by blast
        qed
      qed
    qed
  qed
qed

lemma setEnvFromNote_invocations:
  assumes "noteName \<noteq> []"
  shows "invocations (snd (setEnvFromNote w noteName st)) =
           invocations st @ [(find_cmd noteName, timeout (default_options (opts st)))] \<or>
         (\<exists>contents. invocations (snd (setEnvFromNote w noteName st)) =
           invocations st @
             [(find_cmd noteName, timeout (default_options (opts st))),
              (add_cmd noteName contents, timeout (default_options (opts st)))])"
proof -
  from setEnvFromNote_classified [of w noteName st]
  consider "merged_from_record w noteName st" | "write_attempted w noteName st"
    | "failed_untouched w noteName st" | "returned_idle w noteName st"
    by blast
  then show ?thesis
  proof cases
    case 1
    then show ?thesis by (auto simp add: merged_from_record_def)
  next
    case 2
    then show ?thesis unfolding write_attempted_def by blast
  next
    case 3
    have "invocations (snd (setEnvFromNote w noteName st)) \<noteq> invocations st"
    proof (cases "execSync w (find_cmd noteName) (timeout (default_options (opts st)))")
      case (Inr out)
      from setEnvFromNote_found [OF assms Inr] show ?thesis
        by (simp split: sum.splits)
    next
      case (Inl e)
      show ?thesis
      proof (cases "status e = Some 44")
        case False
        from setEnvFromNote_read_error [OF assms Inl False] show ?thesis by simp
      next
        case True
        show ?thesis
        proof (cases "template (opts st) = None \<and> templatePath (opts st) = None")
          case none: True
          with setEnvFromNote_absent_no_template [OF assms Inl True] show ?thesis by simp
        next
          case False
          then have given: "template (opts st) \<noteq> None \<or> templatePath (opts st) \<noteq> None" by simp
          from writeNote_cases [of w noteName "after_read noteName st"]
          show ?thesis
            by (auto simp add: setEnvFromNote_absent_template [OF assms Inl True given])
        qed
      qed
    qed
    with 3 show ?thesis by (simp add: failed_untouched_def)
  next
    case 4
    then show ?thesis by (simp add: returned_idle_def)
  qed
qed

lemma writeNote_invocations:
  "invocations (snd (writeNote w noteName st)) = invocations st \<or>
   (\<exists>contents. invocations (snd (writeNote w noteName st)) =
      invocations st @ [(add_cmd noteName contents, timeout (opts st))])"
  using writeNote_cases [of w noteName st] by auto

lemma writeNote_opts: "opts (snd (writeNote w noteName st)) = opts st"
  using writeNote_cases [of w noteName st] by auto

lemma setEnvFromNote_opts:
  assumes "noteName \<noteq> []"
  shows "opts (snd (setEnvFromNote w noteName st)) = default_options (opts st)"
proof (cases "execSync w (find_cmd noteName) (timeout (default_options (opts st)))")
  case (Inr out)
  from setEnvFromNote_found [OF assms Inr] show ?thesis
    by (simp split: sum.splits)
next
  case (Inl e)
  show ?thesis
  proof (cases "status e = Some 44")
    case False
    from setEnvFromNote_read_error [OF assms Inl False] show ?thesis by simp
  next
    case True
    show ?thesis
    proof (cases "template (opts st) = None \<and> templatePath (opts st) = None")
      case none: True
      with setEnvFromNote_absent_no_template [OF assms Inl True] show ?thesis by simp
    next
      case False
      then have given: "template (opts st) \<noteq> None \<or> templatePath (opts st) \<noteq> None" by simp
      show ?thesis
        by (simp add: setEnvFromNote_absent_template [OF assms Inl True given] writeNote_opts)
    qed
  qed
qed


section \<open>The claims\<close>

text \<open>
  Claim C1 asks that a key of the mapping be set whenever its variable is unset. The code
  asks whether \<open>process.env[k]\<close> is \<open>undefined\<close>, which it is not for a name that
  \<open>process.env\<close> inherits. With the note \<open>constructor=x\<close>, \<open>BAR=new\<close>, no variable
  \<open>constructor\<close> and \<open>overwrite\<close> not given, the call succeeds, sets \<open>BAR\<close> and leaves
  \<open>constructor\<close> unset; with \<open>overwrite\<close> true it sets both.
\<close>

theorem setEnvFromNote_skips_inherited_name:
  "env (foo_state no_options) ''constructor'' = None \<and>
   overwrite (opts (foo_state no_options)) = None \<and>
   fst (setEnvFromNote inherited_world ''App.env'' (foo_state no_options)) = Inr () \<and>
   env (snd (setEnvFromNote inherited_world ''App.env'' (foo_state no_options))) ''constructor'' = None \<and>
   env (snd (setEnvFromNote inherited_world ''App.env'' (foo_state no_options))) ''BAR'' = Some ''new'' \<and>
   env (snd (setEnvFromNote inherited_world ''App.env''
          (foo_state (no_options\<lparr>overwrite := Some True\<rparr>)))) ''constructor'' = Some ''x''"
proof -
  have name: "''App.env'' \<noteq> []" by simp
  have read: "execSync inherited_world (find_cmd ''App.env'')
      (timeout (default_options (opts (foo_state opt)))) = Inr inherited_stdout" for opt
    by (simp add: inherited_world_def)
  have extracted: "noteFromPList (plist_parse inherited_world) (decodeHex inherited_stdout) =
      Inr (JString inherited_note)"
    by code_simp
  have vars: "dotenv_parse inherited_world (JString inherited_note) =
      Inr [(''constructor'', ''x''), (''BAR'', ''new'')]"
    by (simp add: inherited_world_def)
  have dist: "distinct (map fst [(''constructor'', ''x''), (''BAR'', ''new'')])"
    by simp
  note m = setEnvFromNote_found_env [OF name read extracted vars dist]
  from m [of no_options "''constructor''"] m [of no_options "''BAR''"]
    m [of "no_options\<lparr>overwrite := Some True\<rparr>" "''constructor''"]
  show ?thesis
    by (simp add: foo_state_def no_options_def env_defined_def object_prototype_names_def)
qed

text \<open>
  Claim C2 asks that every backslash and every double quote be escaped. The code leaves a
  backslash and the character after it as they are: the text made of a backslash and a
  double quote comes back unchanged, its quote not replaced, where escaping both
  characters gives four characters; and a text that is a single backslash comes back
  unchanged as well.
\<close>

theorem escapeDoubleQuotes_backslash_quote_unchanged:
  "escapeDoubleQuotes [backslash, dquote] = [backslash, dquote] \<and>
   escape_every [backslash, dquote] = [backslash, backslash, backslash, dquote] \<and>
   escapeDoubleQuotes [backslash, dquote] \<noteq> escape_every [backslash, dquote] \<and>
   escapeDoubleQuotes [backslash] = [backslash] \<and>
   escape_every [backslash] = [backslash, backslash]"
  by (simp add: escape_every_def dquote_def backslash_def)

text \<open>
  Claim C3, as stated, fails: for a document with the preamble whose dictionary has no
  \<open>NOTE\<close> field the detector signals nothing and returns \<open>undefined\<close>.
\<close>

theorem noteFromPList_missing_field_counterexample:
  "sublist plistPreamble empty_dict_doc \<and>
   example_plist_parse empty_dict_doc = Inr (JObject []) \<and>
   noteFromPList example_plist_parse empty_dict_doc = Inr JUndefined"
proof -
  have "sublist plistPreamble empty_dict_doc"
    by (simp add: empty_dict_doc_def)
  moreover have "example_plist_parse empty_dict_doc = Inr (JObject [])"
    by code_simp
  ultimately show ?thesis
    by (simp add: noteFromPList_def indexOf_sublist)
qed

text \<open>
  Claim C3, amended. For a text with the preamble the detector never falls back to the raw
  text: an error of the parser goes on to the caller, and otherwise the result is the
  \<open>NOTE\<close> property of what the parser returned, which is \<open>undefined\<close> when the dictionary
  has no such field; the detector raises no error of its own. The result is the text
  itself only if the parser gave it as the \<open>NOTE\<close> field.
\<close>

theorem noteFromPList_no_fallback:
  assumes "sublist plistPreamble plistString"
  shows "(\<forall>e. parse plistString = Inl e \<longrightarrow> noteFromPList parse plistString = Inl e) \<and>
         (\<forall>p. parse plistString = Inr p \<longrightarrow> noteFromPList parse plistString = get_NOTE p) \<and>
         (\<forall>props. parse plistString = Inr (JObject props) \<and> map_of props ''NOTE'' = None \<longrightarrow>
            noteFromPList parse plistString = Inr JUndefined) \<and>
         (noteFromPList parse plistString = Inr (JString plistString) \<longrightarrow>
            (\<exists>props. parse plistString = Inr (JObject props) \<and>
               map_of props ''NOTE'' = Some (JString plistString)))"
proof -
  have unfold: "noteFromPList parse plistString =
      (case parse plistString of Inl e \<Rightarrow> Inl e | Inr p \<Rightarrow> get_NOTE p)"
    using assms by (simp add: noteFromPList_def indexOf_sublist)
  have "\<exists>props. p = JObject props \<and> map_of props ''NOTE'' = Some (JString plistString)"
    if "get_NOTE p = Inr (JString plistString)" for p
    using that by (cases p) (auto split: option.splits)
  then show ?thesis
    unfolding unfold by (auto split: sum.splits)
qed

theorem noteFromPList_no_fallback_witness:
  "sublist plistPreamble empty_dict_doc \<and>
   noteFromPList example_plist_parse empty_dict_doc = get_NOTE (JObject []) \<and>
   noteFromPList example_plist_parse empty_dict_doc \<noteq> Inr (JString empty_dict_doc)"
proof -
  have present: "sublist plistPreamble empty_dict_doc"
    by (simp add: empty_dict_doc_def)
  have parsed: "example_plist_parse empty_dict_doc = Inr (JObject [])"
    by code_simp
  from noteFromPList_no_fallback [OF present, of example_plist_parse] parsed
  have "noteFromPList example_plist_parse empty_dict_doc = get_NOTE (JObject [])"
    by blast
  with present show ?thesis by simp
qed

text \<open>
  Claim C7. A text that contains the preamble and whose parsed document has the \<open>NOTE\<close>
  field \<open>v\<close> gives exactly \<open>v\<close>; a text that does not contain the preamble comes back
  unchanged.
\<close>

theorem noteFromPList_unwraps:
  "(sublist plistPreamble plistString \<and> parse plistString = Inr (JObject props) \<and>
      map_of props ''NOTE'' = Some v \<longrightarrow> noteFromPList parse plistString = Inr v) \<and>
   (\<not> sublist plistPreamble plistString \<longrightarrow>
      noteFromPList parse plistString = Inr (JString plistString))"
  by (simp add: noteFromPList_def indexOf_sublist)

theorem noteFromPList_unwraps_witness:
  "sublist plistPreamble wrapped_doc \<and>
   noteFromPList example_plist_parse wrapped_doc = Inr (JString ''A=1'') \<and>
   \<not> sublist plistPreamble ''A=1'' \<and>
   noteFromPList example_plist_parse ''A=1'' = Inr (JString ''A=1'')"
proof -
  have present: "sublist plistPreamble wrapped_doc"
    by (simp add: wrapped_doc_def)
  have parsed: "example_plist_parse wrapped_doc = Inr (JObject [(''NOTE'', JString ''A=1'')])"
    by (simp add: example_plist_parse_def)
  have field: "map_of [(''NOTE'', JString ''A=1'')] ''NOTE'' = Some (JString ''A=1'')"
    by simp
  have "\<not> 0 \<le> indexOf ''A=1'' plistPreamble"
    by code_simp
  then have absent: "\<not> sublist plistPreamble ''A=1''"
    by (simp add: indexOf_sublist)
  from noteFromPList_unwraps [of wrapped_doc example_plist_parse "[(''NOTE'', JString ''A=1'')]" "JString ''A=1''"]
    noteFromPList_unwraps [of "''A=1''" example_plist_parse]
    present parsed field absent
  show ?thesis by simp
qed

text \<open>
  Claim C4, as stated, fails in its second half: the entry point writes the default of the
  read into the options object and hands the same object to \<open>writeNote\<close>. With a template
  and no timeout from the caller, the write command runs under 5000 milliseconds.
\<close>

theorem write_inherits_default_timeout_counterexample:
  "timeout (opts (template_state ''X=1'')) = None \<and>
   invocations (snd (setEnvFromNote absent_world ''App.env'' (template_state ''X=1''))) =
     [(find_cmd ''App.env'', Some 5000), (add_cmd ''App.env'' ''X=1'', Some 5000)]"
  by (simp add: template_state_def foo_state_def no_options_def absent_world_def
      setEnvFromNote_def writeNote_def run_def default_options_def Let_def dquote_def backslash_def)

text \<open>
  Claim C4, amended. The read command runs under the timeout of the caller, or under 5000
  milliseconds when the caller gives none, and a write command that the entry point makes
  runs under that same timeout, default included. \<open>writeNote\<close> by itself adds no default:
  it passes the timeout of the options it is given.
\<close>

theorem write_timeout_follows_read:
  assumes "noteName \<noteq> []"
  shows "(invocations (snd (setEnvFromNote w noteName st)) =
            invocations st @
              [(find_cmd noteName, Some (case timeout (opts st) of None \<Rightarrow> 5000 | Some t \<Rightarrow> t))] \<or>
          (\<exists>contents. invocations (snd (setEnvFromNote w noteName st)) =
            invocations st @
              [(find_cmd noteName, Some (case timeout (opts st) of None \<Rightarrow> 5000 | Some t \<Rightarrow> t)),
               (add_cmd noteName contents, Some (case timeout (opts st) of None \<Rightarrow> 5000 | Some t \<Rightarrow> t))])) \<and>
         (invocations (snd (writeNote w noteName st)) = invocations st \<or>
          (\<exists>contents. invocations (snd (writeNote w noteName st)) =
             invocations st @ [(add_cmd noteName contents, timeout (opts st))]))"
proof -
  have "timeout (default_options (opts st)) = Some (case timeout (opts st) of None \<Rightarrow> 5000 | Some t \<Rightarrow> t)"
    by (simp split: option.splits)
  with setEnvFromNote_invocations [OF assms, of w st] writeNote_invocations [of w noteName st]
  show ?thesis by simp
qed

theorem write_timeout_follows_read_witness:
  "invocations (snd (setEnvFromNote absent_world ''App.env''
      (foo_state (no_options\<lparr>timeout := Some 3000, templatePath := Some ''variables.env.template''\<rparr>)))) =
     [(find_cmd ''App.env'', Some 3000), (add_cmd ''App.env'' ''Y=2'', Some 3000)]"
proof -
  let ?st = "foo_state (no_options\<lparr>timeout := Some 3000, templatePath := Some ''variables.env.template''\<rparr>)"
  have name: "''App.env'' \<noteq> []" by simp
  have len: "length (invocations (snd (setEnvFromNote absent_world ''App.env'' ?st))) = 2"
    and second: "fst (invocations (snd (setEnvFromNote absent_world ''App.env'' ?st)) ! 1) = add_cmd ''App.env'' ''Y=2''"
    by (simp_all add: foo_state_def no_options_def absent_world_def
      setEnvFromNote_def writeNote_def run_def default_options_def Let_def dquote_def backslash_def)
  have "invocations ?st = []" "timeout (opts ?st) = Some 3000"
    by (simp_all add: foo_state_def no_options_def)
  with write_timeout_follows_read [OF name, of absent_world ?st] len second
  show ?thesis by auto
qed

text \<open>
  Claim C5, as stated, fails: the decoder has no error. A text of odd length is decoded
  without its last character, and a pair that is not two hex digits gives a byte all the
  same.
\<close>

theorem decodeHex_accepts_any_input_counterexample:
  "odd (length ''414'') \<and> decodeHex ''414'' = ''A'' \<and>
   \<not> list_all isHexDigit ''4z'' \<and> decodeHex ''4z'' = [CHR 0x04] \<and>
   \<not> list_all isHexDigit ''zz'' \<and> decodeHex ''zz'' = [CHR 0x00]"
  by code_simp

text \<open>
  Claim C5, amended. For every input the decoder returns a text and never fails: it makes
  one byte for each full pair of characters, the value that \<open>parseInt\<close> reads from the
  pair, taken modulo 256, and 0 when \<open>parseInt\<close> reads no digit; a last character
  without a partner is ignored; the result is the UTF-8 decoding of these bytes.
\<close>

theorem decodeHex_total:
  "length (decodeHex_uint8 hexString) = length hexString div 2 \<and>
   decodeHex_uint8 hexString = map (byte_at hexString) [0..<length hexString div 2] \<and>
   decodeHex hexString = buffer_toString (map (byte_at hexString) [0..<length hexString div 2])"
  by (simp add: decodeHex_def decodeHex_uint8_eq)

theorem decodeHex_total_witness:
  "length (decodeHex_uint8 ''414'') = 1 \<and> decodeHex ''414'' = buffer_toString [byte_at ''414'' 0]"
  using decodeHex_total [of "''414''"] by simp

text \<open>
  Claim C6, as stated, fails: the decoder returns the bytes decoded as UTF-8, so a byte
  sequence that is not well-formed UTF-8 does not come back. The single byte \<open>FF\<close> comes
  back as the three bytes of U+FFFD.
\<close>

theorem decodeHex_replaces_malformed_counterexample:
  "decodeHex (hexEncode False [0xFF]) = replacement \<and>
   replacement \<noteq> map byte_char [0xFF]"
  by code_simp

text \<open>
  Claim C6, amended. For every byte sequence, the array that the decoder fills from the
  hex encoding is the sequence itself, and the decoder returns its UTF-8 decoding; when
  the sequence is well-formed UTF-8, the text returned consists of exactly these bytes.
\<close>

theorem decodeHex_hexEncode:
  "decodeHex_uint8 (hexEncode upper bytes) = bytes \<and>
   decodeHex (hexEncode upper bytes) = buffer_toString bytes \<and>
   (utf8_wellformed bytes \<longrightarrow> decodeHex (hexEncode upper bytes) = map byte_char bytes)"
  by (simp add: decodeHex_def decodeHex_uint8_hexEncode buffer_toString_def utf8_scan_wellformed)

theorem decodeHex_hexEncode_witness:
  "utf8_wellformed [0x41, 0xE2, 0x82, 0xAC] \<and>
   hexEncode False [0x41, 0xE2, 0x82, 0xAC] = ''41e282ac'' \<and>
   decodeHex ''41e282ac'' = [CHR 0x41, CHR 0xE2, CHR 0x82, CHR 0xAC]"
proof -
  have wf: "utf8_wellformed [0x41, 0xE2, 0x82, 0xAC]"
    by code_simp
  have enc: "hexEncode False [0x41, 0xE2, 0x82, 0xAC] = ''41e282ac''"
    by code_simp
  have chars: "map byte_char [0x41, 0xE2, 0x82, 0xAC] = [CHR 0x41, CHR 0xE2, CHR 0x82, CHR 0xAC]"
    by code_simp
  from decodeHex_hexEncode [of False "[0x41, 0xE2, 0x82, 0xAC]"] wf
  have "decodeHex (hexEncode False [0x41, 0xE2, 0x82, 0xAC]) = map byte_char [0x41, 0xE2, 0x82, 0xAC]"
    by blast
  with wf enc chars show ?thesis by simp
qed

text \<open>
  Claim C8, as stated, fails: with a template that is given but empty and a store without
  the record, no write command is issued, and the call returns normally.
\<close>

theorem setEnvFromNote_empty_template_counterexample:
  "template (opts (template_state [])) = Some [] \<and>
   execSync absent_world (find_cmd ''App.env'') (Some 5000) = Inl (ChildProcessError (Some 44)) \<and>
   fst (setEnvFromNote absent_world ''App.env'' (template_state [])) = Inr () \<and>
   invocations (snd (setEnvFromNote absent_world ''App.env'' (template_state []))) =
     [(find_cmd ''App.env'', Some 5000)]"
  by (simp add: template_state_def foo_state_def no_options_def absent_world_def
      setEnvFromNote_def writeNote_def run_def default_options_def Let_def)

text \<open>
  Claim C8, amended. When the read reports that the record is absent: with neither
  \<open>template\<close> nor \<open>templatePath\<close> given, the call fails with the error of the read and only
  the read command has run; with a \<open>template\<close> that is not empty, or else a \<open>templatePath\<close>
  that is not empty and whose file can be read, one write command is issued with the
  escaped contents (the template before the file), the environment is not changed, and the
  call succeeds exactly when the write command does.
\<close>

theorem setEnvFromNote_not_found:
  assumes "noteName \<noteq> []"
    and "execSync w (find_cmd noteName) (timeout (default_options (opts st))) = Inl e"
    and "status e = Some 44"
  shows "(template (opts st) = None \<and> templatePath (opts st) = None \<longrightarrow>
            fst (setEnvFromNote w noteName st) = Inl e \<and>
            invocations (snd (setEnvFromNote w noteName st)) =
              invocations st @ [(find_cmd noteName, timeout (default_options (opts st)))] \<and>
            env (snd (setEnvFromNote w noteName st)) = env st) \<and>
         ((template (opts st) = Some contents \<and> contents \<noteq> []) \<or>
          (\<not> truthy (template (opts st)) \<and> templatePath (opts st) = Some path \<and> path \<noteq> [] \<and>
             readFileSync w path = Inr contents) \<longrightarrow>
            invocations (snd (setEnvFromNote w noteName st)) =
              invocations st @
                [(find_cmd noteName, timeout (default_options (opts st))),
                 (add_cmd noteName (escapeDoubleQuotes contents), timeout (default_options (opts st)))] \<and>
            env (snd (setEnvFromNote w noteName st)) = env st \<and>
            fst (setEnvFromNote w noteName st) =
              (case execSync w (add_cmd noteName (escapeDoubleQuotes contents))
                      (timeout (default_options (opts st))) of
                 Inl e' \<Rightarrow> Inl e'
               | Inr out \<Rightarrow> Inr ()))"
proof (intro conjI impI)
  assume none: "template (opts st) = None \<and> templatePath (opts st) = None"
  then have eq: "setEnvFromNote w noteName st = (Inl e, after_read noteName st)"
    using assms by (intro setEnvFromNote_absent_no_template) simp_all
  show "fst (setEnvFromNote w noteName st) = Inl e"
    and "invocations (snd (setEnvFromNote w noteName st)) =
           invocations st @ [(find_cmd noteName, timeout (default_options (opts st)))]"
    and "env (snd (setEnvFromNote w noteName st)) = env st"
    by (simp_all add: eq)
next
  assume given: "(template (opts st) = Some contents \<and> contents \<noteq> []) \<or>
      (\<not> truthy (template (opts st)) \<and> templatePath (opts st) = Some path \<and> path \<noteq> [] \<and>
         readFileSync w path = Inr contents)"
  then have "template (opts st) \<noteq> None \<or> templatePath (opts st) \<noteq> None"
    by auto
  then have eq: "setEnvFromNote w noteName st = writeNote w noteName (after_read noteName st)"
    using assms by (intro setEnvFromNote_absent_template) simp_all
  from given
  have wr: "writeNote w noteName (after_read noteName st) =
      (write_outcome w noteName contents (after_read noteName st),
       after_write noteName contents (after_read noteName st))"
  proof
    assume "template (opts st) = Some contents \<and> contents \<noteq> []"
    then show ?thesis by (intro writeNote_template) simp_all
  next
    assume "\<not> truthy (template (opts st)) \<and> templatePath (opts st) = Some path \<and> path \<noteq> [] \<and>
         readFileSync w path = Inr contents"
    then show ?thesis by (intro writeNote_templatePath [where path = path]) simp_all
  qed
  show "invocations (snd (setEnvFromNote w noteName st)) =
      invocations st @
        [(find_cmd noteName, timeout (default_options (opts st))),
         (add_cmd noteName (escapeDoubleQuotes contents), timeout (default_options (opts st)))]"
    and "env (snd (setEnvFromNote w noteName st)) = env st"
    and "fst (setEnvFromNote w noteName st) =
      (case execSync w (add_cmd noteName (escapeDoubleQuotes contents))
              (timeout (default_options (opts st))) of
         Inl e' \<Rightarrow> Inl e'
       | Inr out \<Rightarrow> Inr ())"
    by (simp_all add: eq wr write_outcome_def)
qed

theorem setEnvFromNote_not_found_witness:
  "fst (setEnvFromNote absent_world ''App.env'' (foo_state no_options)) = Inl (ChildProcessError (Some 44)) \<and>
   invocations (snd (setEnvFromNote absent_world ''App.env'' (foo_state no_options))) =
     [(find_cmd ''App.env'', Some 5000)] \<and>
   fst (setEnvFromNote absent_world ''App.env'' (template_state ''X=1'')) = Inr () \<and>
   invocations (snd (setEnvFromNote absent_world ''App.env'' (template_state ''X=1''))) =
     [(find_cmd ''App.env'', Some 5000), (add_cmd ''App.env'' ''X=1'', Some 5000)] \<and>
   env (snd (setEnvFromNote absent_world ''App.env'' (template_state ''X=1''))) = [''FOO'' \<mapsto> ''old'']"
proof -
  have name: "''App.env'' \<noteq> []" by simp
  have t: "timeout (default_options (opts (foo_state opt))) = (case timeout opt of None \<Rightarrow> Some 5000 | Some t \<Rightarrow> Some t)" for opt
    by (simp add: foo_state_def)
  have read: "execSync absent_world (find_cmd ''App.env'') (timeout (default_options (opts (foo_state opt))))
      = Inl (ChildProcessError (Some 44))" for opt
    by (simp add: absent_world_def)
  have st: "status (ChildProcessError (Some 44)) = Some 44" by simp
  have esc: "escapeDoubleQuotes ''X=1'' = ''X=1''"
    by (simp add: dquote_def backslash_def)
  have wr: "execSync absent_world (add_cmd ''App.env'' ''X=1'') (Some 5000) = Inr []"
    by (simp add: absent_world_def add_cmd_def find_cmd_def)
  from setEnvFromNote_not_found [OF name read st, of no_options]
    setEnvFromNote_not_found [OF name read st, of "no_options\<lparr>template := Some ''X=1''\<rparr>" "''X=1''"]
  show ?thesis
    by (simp add: template_state_def foo_state_def no_options_def dquote_def backslash_def wr)
qed




text \<open>
  Claim C10, as stated, fails: with an empty note name the call fails at once and leaves the
  options object as it was.
\<close>

theorem setEnvFromNote_no_name_counterexample:
  "overwrite (opts (foo_state no_options)) = None \<and> timeout (opts (foo_state no_options)) = None \<and>
   fst (setEnvFromNote found_world [] (foo_state no_options)) = Inl (JsError ''You must supply a note name'') \<and>
   opts (snd (setEnvFromNote found_world [] (foo_state no_options))) = opts (foo_state no_options)"
  by (simp add: setEnvFromNote_def foo_state_def no_options_def)

text \<open>
  Claim C10, amended. For every call with a note name that is not empty, the options object
  of the caller holds after the call \<open>overwrite = false\<close> where it had none and
  \<open>timeout = 5000\<close> where it had none, its other fields unchanged, whatever the outcome of
  the call; so it differs from what it was when one of the two was omitted.
\<close>

theorem setEnvFromNote_writes_defaults:
  assumes "noteName \<noteq> []"
  shows "opts (snd (setEnvFromNote w noteName st)) =
           (opts st)\<lparr>overwrite := (case overwrite (opts st) of None \<Rightarrow> Some False | Some b \<Rightarrow> Some b),
                     timeout := (case timeout (opts st) of None \<Rightarrow> Some 5000 | Some t \<Rightarrow> Some t)\<rparr> \<and>
         (overwrite (opts st) = None \<or> timeout (opts st) = None \<longrightarrow>
            opts (snd (setEnvFromNote w noteName st)) \<noteq> opts st)"
proof -
  have d: "default_options (opts st) =
      (opts st)\<lparr>overwrite := (case overwrite (opts st) of None \<Rightarrow> Some False | Some b \<Rightarrow> Some b),
                timeout := (case timeout (opts st) of None \<Rightarrow> Some 5000 | Some t \<Rightarrow> Some t)\<rparr>"
    by (simp add: default_options_def Let_def split: option.splits)
  have "default_options (opts st) \<noteq> opts st" if "overwrite (opts st) = None \<or> timeout (opts st) = None"
  proof
    assume same: "default_options (opts st) = opts st"
    have "overwrite (default_options (opts st)) = overwrite (opts st)"
      and "timeout (default_options (opts st)) = timeout (opts st)"
      by (rule arg_cong [OF same])+
    then have "overwrite (opts st) \<noteq> None" and "timeout (opts st) \<noteq> None"
      by (cases "overwrite (opts st)"; cases "timeout (opts st)"; simp)+
    with that show False by blast
  qed
  then have changed: "overwrite (opts st) = None \<or> timeout (opts st) = None \<longrightarrow>
      default_options (opts st) \<noteq> opts st"
    by blast
  have after: "opts (snd (setEnvFromNote w noteName st)) = default_options (opts st)"
    by (rule setEnvFromNote_opts [OF assms])
  show ?thesis
    unfolding after using d changed by (intro conjI)
qed

theorem setEnvFromNote_writes_defaults_witness:
  "opts (snd (setEnvFromNote found_world ''App.env'' (foo_state no_options))) =
     \<lparr>overwrite = Some False, timeout = Some 5000, template = None, templatePath = None\<rparr> \<and>
   opts (snd (setEnvFromNote found_world ''App.env'' (foo_state no_options))) \<noteq> opts (foo_state no_options)"
proof -
  have name: "''App.env'' \<noteq> []" by simp
  from setEnvFromNote_writes_defaults [OF name, of found_world "foo_state no_options"]
  show ?thesis
    by (simp add: foo_state_def no_options_def)
qed

end
